theory Spec2Isabelle
  imports Main "HOL-Library.Word"
begin

unbundle bit_operations_syntax

section \<open>The process-wide OpenSSL lifecycle of \<open>ceph::crypto::ssl\<close>\<close>

text \<open>
  The model follows \<open>src/common/ceph_crypto.cc\<close> as compiled for
  \<open>OPENSSL_VERSION_NUMBER < 0x10100000L\<close>, the only configuration in which
  \<open>init\<close> and \<open>shutdown\<close> have a body.

  The file-level statics become the fields of one record. Every call into OpenSSL, into
  pthreads and into the allocator is appended to a trace, so that what a call of
  \<open>init\<close> or \<open>shutdown\<close> did, and in which order, can be read off the state.
\<close>

subsection \<open>Threads and pthread mutexes\<close>

text \<open>A thread is named by the number its \<open>CRYPTO_THREADID\<close> holds.\<close>

type_synonym thread = nat

datatype mutex_type = PTHREAD_MUTEX_DEFAULT | PTHREAD_MUTEX_RECURSIVE

text \<open>
  A \<open>pthread_mutex_t\<close> is raw storage (after \<open>new[]\<close>, or after
  \<open>pthread_mutex_destroy\<close>) or an initialised mutex of some type that is free or
  held by a thread a number of times.
\<close>

datatype pthread_mutex_t = Uninitialized | Mutex mutex_type "(thread \<times> nat) option"

text \<open>
  How a call can fail to return normally: the \<open>ceph_assert_always\<close> of \<open>init\<close>
  aborts the process; indexing the lock table where there is none (or past its end) is an
  invalid access; locking a held mutex does not return.
\<close>

datatype failure = AssertionFailed | InvalidAccess | Deadlock | WouldBlock

definition pthread_mutex_init :: "mutex_type \<Rightarrow> pthread_mutex_t" where
  "pthread_mutex_init attr = Mutex attr None"

fun pthread_mutex_lock :: "thread \<Rightarrow> pthread_mutex_t \<Rightarrow> failure + pthread_mutex_t" where
  "pthread_mutex_lock t Uninitialized = Inl InvalidAccess"
| "pthread_mutex_lock t (Mutex k None) = Inr (Mutex k (Some (t, 1)))"
| "pthread_mutex_lock t (Mutex k (Some (holder, n))) =
     (if holder \<noteq> t then Inl WouldBlock
      else if k = PTHREAD_MUTEX_RECURSIVE then Inr (Mutex k (Some (holder, n + 1)))
      else Inl Deadlock)"

text \<open>
  \<open>pthread_mutex_unlock\<close> reports a misuse through its return value, which
  \<open>ssl_locking_callback\<close> discards: the mutex is then left as it was.
\<close>

fun pthread_mutex_unlock :: "thread \<Rightarrow> pthread_mutex_t \<Rightarrow> pthread_mutex_t" where
  "pthread_mutex_unlock t Uninitialized = Uninitialized"
| "pthread_mutex_unlock t (Mutex k None) = Mutex k None"
| "pthread_mutex_unlock t (Mutex k (Some (holder, n))) =
     (if holder \<noteq> t then Mutex k (Some (holder, n))
      else if n \<le> 1 then Mutex k None
      else Mutex k (Some (holder, n - 1)))"

subsection \<open>The global state and the trace of library calls\<close>

text \<open>
  The argument of \<open>CRYPTO_set_locking_callback\<close> and \<open>CRYPTO_set_id_callback\<close> is
  \<open>True\<close> for the address of the callback of this file and \<open>False\<close> for
  \<open>nullptr\<close>. \<open>new_mutexes n\<close> is \<open>new pthread_mutex_t[n]\<close> and
  \<open>delete_mutexes\<close> is \<open>delete[] ssl_mutexes\<close>; \<open>lock_init_records\<close> and
  \<open>unlock_init_records\<close> are the construction and the destruction of the
  \<open>std::lock_guard\<close> on \<open>init_records.lock\<close>.
\<close>

datatype event =
    OpenSSL_add_all_algorithms
  | ERR_load_crypto_strings
  | CRYPTO_num_locks
  | new_mutexes nat
  | pthread_mutexattr_init
  | pthread_mutexattr_settype mutex_type
  | pthread_mutex_init_at nat
  | CRYPTO_set_locking_callback bool
  | CRYPTO_set_id_callback bool
  | OPENSSL_config
  | lock_init_records
  | CRYPTO_THREADID_current thread
  | unlock_init_records
  | ERR_remove_thread_state thread
  | ENGINE_cleanup
  | CONF_modules_free
  | CONF_modules_unload
  | ERR_free_strings
  | EVP_cleanup
  | CRYPTO_cleanup_all_ex_data
  | pthread_mutex_destroy_at nat
  | delete_mutexes

text \<open>
  \<open>crypto_refs\<close> is the \<open>std::atomic_uint32_t\<close>; \<open>ssl_mutexes\<close> is the pointer
  together with the array it points to (\<open>None\<close> is \<open>nullptr\<close>); \<open>tids\<close> is
  \<open>init_records.tids\<close>; the two callback fields are the callbacks OpenSSL has
  installed.
\<close>

record world =
  crypto_refs :: "32 word"
  ssl_mutexes :: "pthread_mutex_t list option"
  ssl_num_locks :: nat
  tids :: "thread list"
  locking_callback :: bool
  id_callback :: bool
  trace :: "event list"

text \<open>The state at process start: the statics are zero-initialised.\<close>

definition initial :: world where
  "initial = \<lparr>crypto_refs = 0, ssl_mutexes = None, ssl_num_locks = 0, tids = [],
     locking_callback = False, id_callback = False, trace = []\<rparr>"

definition log :: "event list \<Rightarrow> world \<Rightarrow> world" where
  "log es s = s\<lparr>trace := trace s @ es\<rparr>"

text \<open>A \<open>for\<close> loop over the indices \<open>is\<close>, stopping at the first failure.\<close>

fun for_loop :: "nat list \<Rightarrow> (nat \<Rightarrow> world \<Rightarrow> failure + world) \<Rightarrow> world \<Rightarrow> failure + world" where
  "for_loop [] body s = Inr s"
| "for_loop (i # is) body s =
     (case body i s of Inl e \<Rightarrow> Inl e | Inr s' \<Rightarrow> for_loop is body s')"

text \<open>\<open>pthread_mutex_init(&ssl_mutexes[i], &pthread_mutex_attr)\<close>\<close>

definition mutex_init_at :: "mutex_type \<Rightarrow> nat \<Rightarrow> world \<Rightarrow> failure + world" where
  "mutex_init_at attr i s =
     (case ssl_mutexes s of
        None \<Rightarrow> Inl InvalidAccess
      | Some ms \<Rightarrow>
          if i < length ms
          then Inr (log [pthread_mutex_init_at i]
                 (s\<lparr>ssl_mutexes := Some (ms[i := pthread_mutex_init attr])\<rparr>))
          else Inl InvalidAccess)"

text \<open>\<open>pthread_mutex_destroy(&ssl_mutexes[i])\<close>\<close>

definition mutex_destroy_at :: "nat \<Rightarrow> world \<Rightarrow> failure + world" where
  "mutex_destroy_at i s =
     (case ssl_mutexes s of
        None \<Rightarrow> Inl InvalidAccess
      | Some ms \<Rightarrow>
          if i < length ms
          then Inr (log [pthread_mutex_destroy_at i]
                 (s\<lparr>ssl_mutexes := Some (ms[i := Uninitialized])\<rparr>))
          else Inl InvalidAccess)"

subsection \<open>\<open>init\<close>\<close>

text \<open>
  The body of \<open>if (++crypto_refs == 1)\<close>. \<open>num_locks\<close> is what
  \<open>CRYPTO_num_locks()\<close> returns, an \<open>int\<close>; \<open>alloc_ok\<close> says whether
  \<open>new pthread_mutex_t[ssl_num_locks]\<close> returns (it throws otherwise, and the handler
  asserts that a string literal is \<open>nullptr\<close>, which aborts).
\<close>

definition one_time_setup :: "int \<Rightarrow> bool \<Rightarrow> world \<Rightarrow> failure + world" where
  "one_time_setup num_locks alloc_ok s =
     (let s1 = log [OpenSSL_add_all_algorithms, ERR_load_crypto_strings, CRYPTO_num_locks] s;
          s2 = s1\<lparr>ssl_num_locks := nat (max num_locks 0)\<rparr>
      in if 0 < ssl_num_locks s2 \<and> \<not> alloc_ok then Inl AssertionFailed
         else
           let s3 = (if 0 < ssl_num_locks s2
                     then log [new_mutexes (ssl_num_locks s2)]
                            (s2\<lparr>ssl_mutexes := Some (replicate (ssl_num_locks s2) Uninitialized)\<rparr>)
                     else s2);
               s4 = log [pthread_mutexattr_init,
                         pthread_mutexattr_settype PTHREAD_MUTEX_RECURSIVE] s3
           in case for_loop [0..<ssl_num_locks s4] (mutex_init_at PTHREAD_MUTEX_RECURSIVE) s4 of
                Inl e \<Rightarrow> Inl e
              | Inr s5 \<Rightarrow>
                  Inr (log [CRYPTO_set_locking_callback True, CRYPTO_set_id_callback True,
                            OPENSSL_config]
                        (s5\<lparr>locking_callback := True, id_callback := True\<rparr>)))"

text \<open>
  The block that records the calling thread: under \<open>init_records.lock\<close>,
  \<open>CRYPTO_THREADID_current\<close> reads the identity of the calling thread \<open>self\<close> and
  \<open>emplace_back\<close> appends it.
\<close>

definition record_thread :: "thread \<Rightarrow> world \<Rightarrow> world" where
  "record_thread self s =
     log [lock_init_records, CRYPTO_THREADID_current self, unlock_init_records]
       (s\<lparr>tids := tids s @ [self]\<rparr>)"

definition init :: "int \<Rightarrow> bool \<Rightarrow> thread \<Rightarrow> world \<Rightarrow> failure + world" where
  "init num_locks alloc_ok self s0 =
     (let s = s0\<lparr>crypto_refs := crypto_refs s0 + 1\<rparr>
      in case (if crypto_refs s = 1 then one_time_setup num_locks alloc_ok s else Inr s) of
           Inl e \<Rightarrow> Inl e
         | Inr s' \<Rightarrow> Inr (record_thread self s'))"

subsection \<open>\<open>shutdown\<close>\<close>

text \<open>The calls of \<open>shutdown\<close> between the thread-state loop and the mutex loop.\<close>

definition library_cleanup :: "event list" where
  "library_cleanup = [CRYPTO_set_locking_callback False, CRYPTO_set_id_callback False,
     ENGINE_cleanup, CONF_modules_free, CONF_modules_unload, ERR_free_strings, EVP_cleanup,
     CRYPTO_cleanup_all_ex_data]"

definition shutdown :: "world \<Rightarrow> failure + world" where
  "shutdown s0 =
     (let s = s0\<lparr>crypto_refs := crypto_refs s0 - 1\<rparr>
      in if crypto_refs s \<noteq> 0 then Inr s
         else
           let s1 = log ([lock_init_records] @ map ERR_remove_thread_state (tids s)
                          @ [unlock_init_records]) s;
               s2 = log library_cleanup (s1\<lparr>locking_callback := False, id_callback := False\<rparr>)
           in case for_loop [0..<ssl_num_locks s2] mutex_destroy_at s2 of
                Inl e \<Rightarrow> Inl e
              | Inr s3 \<Rightarrow> Inr (log [delete_mutexes] (s3\<lparr>ssl_mutexes := None\<rparr>)))"

subsection \<open>\<open>ssl_locking_callback\<close>\<close>

text \<open>
  The callback OpenSSL calls on the thread \<open>self\<close>: \<open>mode & 1\<close> is
  \<open>CRYPTO_LOCK\<close>. Both branches index \<open>ssl_mutexes\<close> with \<open>mutex_num\<close>, an
  \<open>int\<close>, without a check. A lock that does not return is a failure of the call.
\<close>

definition ssl_locking_callback :: "thread \<Rightarrow> int \<Rightarrow> int \<Rightarrow> world \<Rightarrow> failure + world" where
  "ssl_locking_callback self mode mutex_num s =
     (case ssl_mutexes s of
        None \<Rightarrow> Inl InvalidAccess
      | Some ms \<Rightarrow>
          if 0 \<le> mutex_num \<and> nat mutex_num < length ms
          then
            if mode AND 1 \<noteq> 0
            then (case pthread_mutex_lock self (ms ! nat mutex_num) of
                    Inl e \<Rightarrow> Inl e
                  | Inr m \<Rightarrow> Inr (s\<lparr>ssl_mutexes := Some (ms[nat mutex_num := m])\<rparr>))
            else Inr (s\<lparr>ssl_mutexes :=
                        Some (ms[nat mutex_num := pthread_mutex_unlock self (ms ! nat mutex_num)])\<rparr>)
          else Inl InvalidAccess)"

subsection \<open>The calls a step makes, in order\<close>

definition setup_calls :: "int \<Rightarrow> event list" where
  "setup_calls num_locks =
     [OpenSSL_add_all_algorithms, ERR_load_crypto_strings, CRYPTO_num_locks]
     @ (if 0 < num_locks then [new_mutexes (nat num_locks)] else [])
     @ [pthread_mutexattr_init, pthread_mutexattr_settype PTHREAD_MUTEX_RECURSIVE]
     @ map pthread_mutex_init_at [0..<nat num_locks]
     @ [CRYPTO_set_locking_callback True, CRYPTO_set_id_callback True, OPENSSL_config]"

definition record_calls :: "thread \<Rightarrow> event list" where
  "record_calls self = [lock_init_records, CRYPTO_THREADID_current self, unlock_init_records]"

definition teardown_calls :: "nat \<Rightarrow> event list" where
  "teardown_calls n =
     library_cleanup @ map pthread_mutex_destroy_at [0..<n] @ [delete_mutexes]"

definition shutdown_calls :: "thread list \<Rightarrow> nat \<Rightarrow> event list" where
  "shutdown_calls ts n =
     [lock_init_records] @ map ERR_remove_thread_state ts @ [unlock_init_records]
     @ teardown_calls n"

text \<open>
  Every index below \<open>ssl_num_locks\<close> is a slot of the array \<open>ssl_mutexes\<close> points
  to: the loops of \<open>shutdown\<close> stay inside the table.
\<close>

definition lock_table_covers :: "world \<Rightarrow> bool" where
  "lock_table_covers s =
     (case ssl_mutexes s of
        None \<Rightarrow> ssl_num_locks s = 0
      | Some ms \<Rightarrow> ssl_num_locks s \<le> length ms)"

text \<open>How often the library call \<open>e\<close> was made between the states \<open>s\<close> and \<open>s'\<close>.\<close>

definition calls_between :: "world \<Rightarrow> world \<Rightarrow> event \<Rightarrow> nat" where
  "calls_between s s' e = count_list (drop (length (trace s)) (trace s')) e"

subsection \<open>Example states\<close>

text \<open>
  Two states of a small example, with a library of two lock slots: the state the first
  \<open>init\<close> of the process leaves when thread 7 calls it, and the state the
  \<open>shutdown\<close> that follows leaves.
\<close>

definition live_example :: world where
  "live_example = \<lparr>crypto_refs = 1,
     ssl_mutexes = Some [Mutex PTHREAD_MUTEX_RECURSIVE None, Mutex PTHREAD_MUTEX_RECURSIVE None],
     ssl_num_locks = 2, tids = [7], locking_callback = True, id_callback = True,
     trace = setup_calls 2 @ record_calls 7\<rparr>"

definition drained_example :: world where
  "drained_example = live_example\<lparr>crypto_refs := 0, ssl_mutexes := None,
     locking_callback := False, id_callback := False,
     trace := trace live_example @ shutdown_calls [7] 2\<rparr>"

section \<open>The digest wrapper \<open>OpenSSLDigest\<close>\<close>

subsection \<open>Memory\<close>

text \<open>
  \<open>Update\<close> and \<open>Final\<close> take raw pointers. Memory maps the addresses that may be
  accessed to the byte they hold; the null pointer is address 0, and a pointer is invalid
  where the memory has no byte for it. Reading or writing a range fails at the first
  address that is not mapped.
\<close>

type_synonym byte = "8 word"
type_synonym address = nat
type_synonym memory = "address \<Rightarrow> byte option"

fun load :: "memory \<Rightarrow> address \<Rightarrow> nat \<Rightarrow> byte list option" where
  "load mem p 0 = Some []"
| "load mem p (Suc n) =
     (case mem p of
        None \<Rightarrow> None
      | Some b \<Rightarrow> (case load mem (Suc p) n of None \<Rightarrow> None | Some bs \<Rightarrow> Some (b # bs)))"

fun store :: "memory \<Rightarrow> address \<Rightarrow> byte list \<Rightarrow> memory option" where
  "store mem p [] = Some mem"
| "store mem p (b # bs) =
     (case mem p of None \<Rightarrow> None | Some old \<Rightarrow> store (mem(p \<mapsto> b)) (Suc p) bs)"

subsection \<open>The EVP interface of OpenSSL\<close>

text \<open>
  The EVP functions are OpenSSL's, not this repository's, and are parameters of the model:
  \<open>'ctx\<close> is what an \<open>EVP_MD_CTX\<close> holds and \<open>'md\<close> names an algorithm
  (\<open>const EVP_MD *\<close>). \<open>EVP_DigestUpdate\<close> is given the \<open>cnt\<close> bytes at \<open>d\<close>.
  \<open>EVP_DigestFinal_ex\<close> yields the bytes it writes to \<open>md\<close>, the number it stores in
  \<open>*s\<close> and the context it leaves. \<open>EVP_MD_size\<close> is the digest length of an
  algorithm. The \<open>int\<close> results of the EVP calls are not part of the model: the source
  discards every one of them.
\<close>

record ('ctx, 'md) libcrypto =
  EVP_MD_CTX_create :: "'ctx"
  EVP_DigestInit_ex :: "'ctx \<Rightarrow> 'md \<Rightarrow> 'ctx"
  EVP_DigestUpdate :: "'ctx \<Rightarrow> byte list \<Rightarrow> 'ctx"
  EVP_DigestFinal_ex :: "'ctx \<Rightarrow> byte list \<times> nat \<times> 'ctx"
  EVP_MD_size :: "'md \<Rightarrow> nat"

subsection \<open>The class\<close>

record ('ctx, 'md) OpenSSLDigest =
  mpContext :: "'ctx"
  mpType :: "'md"

definition Restart ::
  "('ctx, 'md) libcrypto \<Rightarrow> ('ctx, 'md) OpenSSLDigest \<Rightarrow> ('ctx, 'md) OpenSSLDigest" where
  "Restart lib d = d\<lparr>mpContext := EVP_DigestInit_ex lib (mpContext d) (mpType d)\<rparr>"

text \<open>The constructor.\<close>

definition new_OpenSSLDigest :: "('ctx, 'md) libcrypto \<Rightarrow> 'md \<Rightarrow> ('ctx, 'md) OpenSSLDigest" where
  "new_OpenSSLDigest lib type = Restart lib \<lparr>mpContext = EVP_MD_CTX_create lib, mpType = type\<rparr>"

text \<open>\<open>len\<close> is the \<open>size_t length\<close>.\<close>

definition Update ::
  "('ctx, 'md) libcrypto \<Rightarrow> memory \<Rightarrow> ('ctx, 'md) OpenSSLDigest \<Rightarrow> address \<Rightarrow> 64 word
     \<Rightarrow> failure + ('ctx, 'md) OpenSSLDigest" where
  "Update lib mem d input len =
     (if len \<noteq> 0
      then (case load mem input (unat len) of
              None \<Rightarrow> Inl InvalidAccess
            | Some bs \<Rightarrow> Inr (d\<lparr>mpContext := EVP_DigestUpdate lib (mpContext d) bs\<rparr>))
      else Inr d)"

text \<open>The local \<open>s\<close> receives the size and is not read again.\<close>

definition Final ::
  "('ctx, 'md) libcrypto \<Rightarrow> memory \<Rightarrow> ('ctx, 'md) OpenSSLDigest \<Rightarrow> address
     \<Rightarrow> failure + (memory \<times> ('ctx, 'md) OpenSSLDigest)" where
  "Final lib mem d digest =
     (case EVP_DigestFinal_ex lib (mpContext d) of
        (md, s, ctx') \<Rightarrow>
          (case store mem digest md of
             None \<Rightarrow> Inl InvalidAccess
           | Some mem' \<Rightarrow> Inr (mem', d\<lparr>mpContext := ctx'\<rparr>)))"

subsection \<open>Feeding a message in pieces\<close>

text \<open>Successive calls of \<open>Update\<close>, one for each pair of a pointer and a length.\<close>

fun Updates ::
  "('ctx, 'md) libcrypto \<Rightarrow> memory \<Rightarrow> ('ctx, 'md) OpenSSLDigest \<Rightarrow> (address \<times> 64 word) list
     \<Rightarrow> failure + ('ctx, 'md) OpenSSLDigest" where
  "Updates lib mem d [] = Inr d"
| "Updates lib mem d ((p, n) # chunks) =
     (case Update lib mem d p n of Inl e \<Rightarrow> Inl e | Inr d' \<Rightarrow> Updates lib mem d' chunks)"

text \<open>\<open>Restart\<close>, the calls of \<open>Update\<close>, then \<open>Final\<close> into the buffer at \<open>out\<close>.\<close>

definition digest_of ::
  "('ctx, 'md) libcrypto \<Rightarrow> memory \<Rightarrow> ('ctx, 'md) OpenSSLDigest \<Rightarrow> (address \<times> 64 word) list
     \<Rightarrow> address \<Rightarrow> failure + (memory \<times> ('ctx, 'md) OpenSSLDigest)" where
  "digest_of lib mem d chunks out =
     (case Updates lib mem (Restart lib d) chunks of
        Inl e \<Rightarrow> Inl e
      | Inr d' \<Rightarrow> Final lib mem d' out)"

text \<open>What a call of \<open>Update\<close> that is given the bytes \<open>bs\<close> does to the object.\<close>

definition absorb ::
  "('ctx, 'md) libcrypto \<Rightarrow> ('ctx, 'md) OpenSSLDigest \<Rightarrow> byte list \<Rightarrow> ('ctx, 'md) OpenSSLDigest" where
  "absorb lib d bs =
     (if bs = [] then d else d\<lparr>mpContext := EVP_DigestUpdate lib (mpContext d) bs\<rparr>)"

subsection \<open>The EVP functions as the spec describes them\<close>

text \<open>
  Modelled from the spec: the EVP functions of OpenSSL, whose code is outside the
  repository. The spec says of them that initialisation "(re)initializes the underlying
  hash computation for the configured algorithm, discarding any partial state", that an
  update "feeds \<open>length\<close> bytes from \<open>buffer\<close> into the running computation", that
  finalisation "writes the finalized digest bytes", after which the context is not ready
  for an update before the next initialisation, and that a digest is the "output of a
  one-way hash computation over an arbitrary-length input". So a context is newly
  created, or a running computation of an algorithm over the bytes fed so far, or
  finished; \<open>H\<close> is the hash function, the mathematics of which is OpenSSL's own. An
  update or a finalisation of a context that is not running is undefined by contract; the
  model leaves the context as it is and writes nothing.
\<close>

datatype 'md evp_md_ctx = Created | Running 'md "byte list" | Finished 'md

definition evp :: "('md \<Rightarrow> byte list \<Rightarrow> byte list) \<Rightarrow> ('md evp_md_ctx, 'md) libcrypto" where
  "evp H = \<lparr>EVP_MD_CTX_create = Created,
     EVP_DigestInit_ex = (\<lambda>c md. Running md []),
     EVP_DigestUpdate = (\<lambda>c bs. case c of Running md msg \<Rightarrow> Running md (msg @ bs) | _ \<Rightarrow> c),
     EVP_DigestFinal_ex = (\<lambda>c. case c of
          Running md msg \<Rightarrow> (H md msg, length (H md msg), Finished md)
        | _ \<Rightarrow> ([], 0, c)),
     EVP_MD_size = (\<lambda>md. length (H md []))\<rparr>"

text \<open>A hash function for examples: the length and the sum of the message.\<close>

definition checksum :: "unit \<Rightarrow> byte list \<Rightarrow> byte list" where
  "checksum md msg = [of_nat (length msg), sum_list msg]"

subsection \<open>Example backends\<close>

text \<open>
  A backend whose context is the message so far and whose digest is two bytes, the length
  and the sum of the message.
\<close>

definition checksum_lib :: "(byte list, unit) libcrypto" where
  "checksum_lib = \<lparr>EVP_MD_CTX_create = [],
     EVP_DigestInit_ex = (\<lambda>c md. []),
     EVP_DigestUpdate = (\<lambda>c bs. c @ bs),
     EVP_DigestFinal_ex = (\<lambda>c. ([of_nat (length c), sum_list c], 2, c)),
     EVP_MD_size = (\<lambda>md. 2)\<rparr>"

text \<open>A backend for an algorithm of 16 bytes whose finalisation writes only 3.\<close>

definition short_lib :: "(unit, unit) libcrypto" where
  "short_lib = \<lparr>EVP_MD_CTX_create = (),
     EVP_DigestInit_ex = (\<lambda>c md. ()),
     EVP_DigestUpdate = (\<lambda>c bs. ()),
     EVP_DigestFinal_ex = (\<lambda>c. ([0xAA, 0xBB, 0xCC], 3, ())),
     EVP_MD_size = (\<lambda>md. 16)\<rparr>"

text \<open>
  A memory with the message bytes 10, 11, 12 at the addresses 1 to 3 and a zeroed buffer
  of 16 bytes at the addresses 32 to 47; nothing else is mapped.
\<close>

definition example_memory :: memory where
  "example_memory a =
     (if 1 \<le> a \<and> a \<le> 3 then Some (of_nat (a + 9))
      else if 32 \<le> a \<and> a < 48 then Some 0
      else None)"

section \<open>Auxiliary facts about the lifecycle\<close>

lemma for_loop_append:
  "for_loop (xs @ ys) body s =
     (case for_loop xs body s of Inl e \<Rightarrow> Inl e | Inr s' \<Rightarrow> for_loop ys body s')"
  by (induction xs arbitrary: s) (auto split: sum.splits)

lemma overwrite_next:
  assumes "k < length ms"
  shows "(replicate k x @ drop k ms)[k := x] = replicate (Suc k) x @ drop (Suc k) ms"
proof -
  have "drop k ms = ms ! k # drop (Suc k) ms"
    using assms by (simp add: Cons_nth_drop_Suc)
  then have "(replicate k x @ drop k ms)[k := x] = replicate k x @ x # drop (Suc k) ms"
    using list_update_length [of "replicate k x" "ms ! k" "drop (Suc k) ms" x] by simp
  then show ?thesis
    by (simp add: replicate_append_same)
qed

lemma init_loop:
  assumes "ssl_mutexes s = Some ms" and "k \<le> length ms"
  shows "for_loop [0..<k] (mutex_init_at a) s =
           Inr (s\<lparr>ssl_mutexes := Some (replicate k (Mutex a None) @ drop k ms),
                  trace := trace s @ map pthread_mutex_init_at [0..<k]\<rparr>)"
  using assms
proof (induction k)
  case 0
  then show ?case by simp
next
  case (Suc k)
  then have less: "k < length ms" by simp
  have upd: "(replicate k (Mutex a None) @ drop k ms)[k := Mutex a None]
              = replicate (Suc k) (Mutex a None) @ drop (Suc k) ms"
    using less by (rule overwrite_next)
  show ?case
    using Suc less upd
    by (simp add: for_loop_append mutex_init_at_def log_def pthread_mutex_init_def)
qed

lemma destroy_loop:
  assumes "ssl_mutexes s = Some ms" and "k \<le> length ms"
  shows "for_loop [0..<k] mutex_destroy_at s =
           Inr (s\<lparr>ssl_mutexes := Some (replicate k Uninitialized @ drop k ms),
                  trace := trace s @ map pthread_mutex_destroy_at [0..<k]\<rparr>)"
  using assms
proof (induction k)
  case 0
  then show ?case by simp
next
  case (Suc k)
  then have less: "k < length ms" by simp
  have upd: "(replicate k Uninitialized @ drop k ms)[k := Uninitialized]
              = replicate (Suc k) Uninitialized @ drop (Suc k) ms"
    using less by (rule overwrite_next)
  show ?case
    using Suc less upd
    by (simp add: for_loop_append mutex_destroy_at_def log_def)
qed

lemma one_time_setup_ok:
  assumes "0 < nl \<longrightarrow> ok"
  shows "one_time_setup nl ok s =
     Inr (s\<lparr>ssl_mutexes := (if 0 < nl
                               then Some (replicate (nat nl) (Mutex PTHREAD_MUTEX_RECURSIVE None))
                               else ssl_mutexes s),
            ssl_num_locks := nat (max nl 0),
            locking_callback := True, id_callback := True,
            trace := trace s @ setup_calls nl\<rparr>)"
proof (cases "0 < nl")
  case True
  then show ?thesis
    using assms
    by (simp add: one_time_setup_def log_def Let_def setup_calls_def max_def
        init_loop [where ms = "replicate (nat nl) Uninitialized"])
next
  case False
  then show ?thesis
    by (simp add: one_time_setup_def log_def Let_def setup_calls_def max_def)
qed

lemma one_time_setup_abort:
  assumes "0 < nl" and "\<not> ok"
  shows "one_time_setup nl ok s = Inl AssertionFailed"
  using assms by (simp add: one_time_setup_def log_def Let_def)

lemma init_first:
  assumes "crypto_refs s = 0" and "0 < nl \<longrightarrow> ok"
  shows "init nl ok t s =
     Inr (s\<lparr>crypto_refs := 1,
            ssl_mutexes := (if 0 < nl
                               then Some (replicate (nat nl) (Mutex PTHREAD_MUTEX_RECURSIVE None))
                               else ssl_mutexes s),
            ssl_num_locks := nat (max nl 0),
            tids := tids s @ [t],
            locking_callback := True, id_callback := True,
            trace := trace s @ setup_calls nl @ record_calls t\<rparr>)"
  using assms
  by (simp add: init_def one_time_setup_ok record_thread_def record_calls_def log_def)

lemma init_first_abort:
  assumes "crypto_refs s = 0" and "0 < nl" and "\<not> ok"
  shows "init nl ok t s = Inl AssertionFailed"
  using assms by (simp add: init_def one_time_setup_abort)

lemma init_later:
  assumes "crypto_refs s \<noteq> 0"
  shows "init nl ok t s =
     Inr (s\<lparr>crypto_refs := crypto_refs s + 1, tids := tids s @ [t],
            trace := trace s @ record_calls t\<rparr>)"
  using assms
  by (simp add: init_def record_thread_def record_calls_def log_def)

lemma shutdown_last:
  assumes "crypto_refs s = 1" and "lock_table_covers s"
  shows "shutdown s =
     Inr (s\<lparr>crypto_refs := 0, ssl_mutexes := None,
            locking_callback := False, id_callback := False,
            trace := trace s @ shutdown_calls (tids s) (ssl_num_locks s)\<rparr>)"
proof (cases "ssl_mutexes s")
  case None
  then show ?thesis
    using assms
    by (simp add: shutdown_def lock_table_covers_def log_def Let_def shutdown_calls_def teardown_calls_def)
next
  case (Some ms)
  then have len: "ssl_num_locks s \<le> length ms"
    using assms by (simp add: lock_table_covers_def)
  show ?thesis
    using assms Some len
    by (simp add: shutdown_def log_def Let_def shutdown_calls_def teardown_calls_def
        destroy_loop [where ms = ms])
qed

lemma count_list_distinct:
  "distinct xs \<Longrightarrow> x \<in> set xs \<Longrightarrow> count_list xs x = 1"
  by (induction xs) auto

lemma distinct_setup_calls: "distinct (setup_calls nl)"
  by (auto simp: setup_calls_def distinct_map inj_on_def)

lemma distinct_teardown_calls: "distinct (teardown_calls n)"
  by (auto simp: teardown_calls_def library_cleanup_def distinct_map inj_on_def)

lemma setup_not_recorded:
  "e \<in> set (setup_calls nl) \<Longrightarrow>
     count_list (concat (map (\<lambda>(ok, t). record_calls t) ts)) e = 0"
  unfolding count_list_0_iff
  by (auto simp: setup_calls_def record_calls_def split: if_splits)

lemma setup_not_shutdown:
  "e \<in> set (setup_calls nl) \<Longrightarrow> count_list (shutdown_calls us n) e = 0"
  unfolding count_list_0_iff
  by (auto simp: setup_calls_def shutdown_calls_def teardown_calls_def library_cleanup_def
      split: if_splits)

lemma teardown_not_setup:
  "e \<in> set (teardown_calls n) \<Longrightarrow> count_list (setup_calls nl) e = 0"
  unfolding count_list_0_iff
  by (auto simp: setup_calls_def teardown_calls_def library_cleanup_def split: if_splits)

lemma teardown_not_recorded:
  "e \<in> set (teardown_calls n) \<Longrightarrow>
     count_list (concat (map (\<lambda>(ok, t). record_calls t) ts)) e = 0"
  unfolding count_list_0_iff
  by (auto simp: teardown_calls_def library_cleanup_def record_calls_def)

lemma teardown_not_thread_state:
  "e \<in> set (teardown_calls n) \<Longrightarrow>
     count_list ([lock_init_records] @ map ERR_remove_thread_state us @ [unlock_init_records]) e = 0"
  unfolding count_list_0_iff
  by (auto simp: teardown_calls_def library_cleanup_def)

lemma word32_of_nat_nonzero:
  "0 < k \<Longrightarrow> k < 2 ^ 32 \<Longrightarrow> (of_nat k :: 32 word) \<noteq> 0"
  using of_nat_neq_0 [of k, where 'a = 32] by simp

lemma init_live_example: "init 2 True 7 initial = Inr live_example"
  by (simp add: init_first initial_def live_example_def eval_nat_numeral)

lemma shutdown_live_example: "shutdown live_example = Inr drained_example"
proof -
  have h1: "crypto_refs live_example = 1" and h2: "lock_table_covers live_example"
    by (simp_all add: live_example_def lock_table_covers_def)
  have "shutdown live_example =
     Inr (live_example\<lparr>crypto_refs := 0, ssl_mutexes := None,
            locking_callback := False, id_callback := False,
            trace := trace live_example
              @ shutdown_calls (tids live_example) (ssl_num_locks live_example)\<rparr>)"
    using h1 h2 by (rule shutdown_last)
  also have "\<dots> = Inr drained_example"
    by (simp add: live_example_def drained_example_def)
  finally show ?thesis .
qed

section \<open>Properties of the lifecycle\<close>

text \<open>
  C8. A call of \<open>shutdown\<close> whose decremented \<open>crypto_refs\<close> is not zero returns at
  once: the state it leaves is the state it found with only the counter decremented, so
  the callbacks, \<open>ssl_mutexes\<close>, \<open>ssl_num_locks\<close> and \<open>init_records.tids\<close> are
  as before, and the trace is as before, that is, no library entry point was called.
\<close>

theorem shutdown_nonzero_returns_immediately:
  assumes "crypto_refs s - 1 \<noteq> 0"
  shows "shutdown s = Inr (s\<lparr>crypto_refs := crypto_refs s - 1\<rparr>)"
  using assms by (simp add: shutdown_def)

theorem shutdown_nonzero_returns_immediately_witness:
  "crypto_refs (initial\<lparr>crypto_refs := 2\<rparr>) - 1 \<noteq> 0 \<and>
   shutdown (initial\<lparr>crypto_refs := 2\<rparr>) = Inr (initial\<lparr>crypto_refs := 1\<rparr>)"
proof -
  have h: "crypto_refs (initial\<lparr>crypto_refs := 2\<rparr>) - 1 \<noteq> 0"
    by (simp add: initial_def)
  show ?thesis
    using h shutdown_nonzero_returns_immediately [OF h] by (simp add: initial_def)
qed

text \<open>
  C10. A call of \<open>shutdown\<close> made while \<open>crypto_refs\<close> is zero wraps the unsigned
  32-bit counter to \<open>2^32 - 1\<close>; that value is not zero, and the call returns with
  nothing else changed and no part of the shutdown sequence run.
\<close>

theorem shutdown_at_zero_wraps:
  assumes "crypto_refs s = 0"
  shows "shutdown s = Inr (s\<lparr>crypto_refs := crypto_refs s - 1\<rparr>) \<and>
         unat (crypto_refs s - 1) = 2 ^ 32 - 1 \<and>
         crypto_refs s - 1 \<noteq> 0"
  using assms by (simp add: shutdown_def unsigned_minus_1_eq_mask mask_eq_exp_minus_1)

theorem shutdown_at_zero_wraps_witness:
  "crypto_refs initial = 0 \<and>
   shutdown initial = Inr (initial\<lparr>crypto_refs := 4294967295\<rparr>) \<and>
   unat (crypto_refs initial - 1) = 4294967295"
proof -
  have h: "crypto_refs initial = 0"
    by (simp add: initial_def)
  show ?thesis
    using h shutdown_at_zero_wraps [OF h]
    by (simp add: initial_def unsigned_minus_1_eq_mask mask_eq_exp_minus_1)
qed

text \<open>
  C7. If the allocation of the lock table fails in the call of \<open>init\<close> that takes
  \<open>crypto_refs\<close> from 0 to 1, the call ends in the failed assertion, that is, it aborts
  and returns nothing to its caller; in every other case \<open>init\<close> returns normally.
  An allocation is made, and so can fail, only when \<open>CRYPTO_num_locks()\<close> is positive.
\<close>

theorem init_aborts_iff_allocation_fails:
  "(crypto_refs s = 0 \<and> 0 < nl \<and> \<not> ok \<longrightarrow> init nl ok t s = Inl AssertionFailed) \<and>
   (\<not> (crypto_refs s = 0 \<and> 0 < nl \<and> \<not> ok) \<longrightarrow> (\<exists>s'. init nl ok t s = Inr s'))"
proof (intro conjI impI)
  assume "crypto_refs s = 0 \<and> 0 < nl \<and> \<not> ok"
  then show "init nl ok t s = Inl AssertionFailed"
    by (simp add: init_first_abort)
next
  assume h: "\<not> (crypto_refs s = 0 \<and> 0 < nl \<and> \<not> ok)"
  show "\<exists>s'. init nl ok t s = Inr s'"
  proof (cases "crypto_refs s = 0")
    case True
    then have "0 < nl \<longrightarrow> ok"
      using h by blast
    with True show ?thesis
      by (simp add: init_first)
  next
    case False
    then show ?thesis
      by (simp add: init_later)
  qed
qed

theorem init_aborts_iff_allocation_fails_witness:
  "init 41 False 7 initial = Inl AssertionFailed \<and>
   (\<exists>s'. init 41 True 7 initial = Inr s') \<and>
   (\<exists>s'. init 41 False 7 (initial\<lparr>crypto_refs := 1\<rparr>) = Inr s')"
  using init_aborts_iff_allocation_fails [of initial 41 False 7]
    init_aborts_iff_allocation_fails [of initial 41 True 7]
    init_aborts_iff_allocation_fails [of "initial\<lparr>crypto_refs := 1\<rparr>" 41 False 7]
  by (simp add: initial_def)

text \<open>
  C2. A call of \<open>init\<close> that returns has appended the identity of the calling thread to
  \<open>init_records.tids\<close>, between taking and releasing \<open>init_records.lock\<close>, whether
  or not it was the call that performed the setup. The call of \<open>shutdown\<close> that takes
  \<open>crypto_refs\<close> from 1 to 0 passes every recorded identity to
  \<open>ERR_remove_thread_state\<close> under that lock and leaves \<open>init_records.tids\<close> as it
  was: the registry is not cleared.
\<close>

theorem init_records_thread_and_shutdown_keeps_registry:
  "(\<not> (crypto_refs s = 0 \<and> 0 < nl \<and> \<not> ok) \<longrightarrow>
      (\<exists>s' tr. init nl ok t s = Inr s' \<and> tids s' = tids s @ [t] \<and> t \<in> set (tids s') \<and>
         trace s' = tr @ [lock_init_records, CRYPTO_THREADID_current t, unlock_init_records])) \<and>
   (crypto_refs s = 1 \<and> lock_table_covers s \<longrightarrow>
      (\<exists>s'. shutdown s = Inr s' \<and> crypto_refs s' = 0 \<and> tids s' = tids s \<and>
         trace s' = trace s @ [lock_init_records] @ map ERR_remove_thread_state (tids s)
           @ [unlock_init_records] @ teardown_calls (ssl_num_locks s)))"
proof (intro conjI impI)
  assume h: "\<not> (crypto_refs s = 0 \<and> 0 < nl \<and> \<not> ok)"
  show "\<exists>s' tr. init nl ok t s = Inr s' \<and> tids s' = tids s @ [t] \<and> t \<in> set (tids s') \<and>
         trace s' = tr @ [lock_init_records, CRYPTO_THREADID_current t, unlock_init_records]"
  proof (cases "crypto_refs s = 0")
    case True
    then have "0 < nl \<longrightarrow> ok"
      using h by blast
    with True show ?thesis
      by (simp add: init_first record_calls_def)
  next
    case False
    then show ?thesis
      by (simp add: init_later record_calls_def)
  qed
next
  assume "crypto_refs s = 1 \<and> lock_table_covers s"
  then show "\<exists>s'. shutdown s = Inr s' \<and> crypto_refs s' = 0 \<and> tids s' = tids s \<and>
         trace s' = trace s @ [lock_init_records] @ map ERR_remove_thread_state (tids s)
           @ [unlock_init_records] @ teardown_calls (ssl_num_locks s)"
    by (simp add: shutdown_last shutdown_calls_def)
qed

theorem init_records_thread_and_shutdown_keeps_registry_witness:
  "(\<exists>s'. init 2 False 8 live_example = Inr s' \<and> tids s' = [7, 8]) \<and>
   (\<exists>s'. shutdown live_example = Inr s' \<and> crypto_refs s' = 0 \<and> tids s' = [7])"
  using init_records_thread_and_shutdown_keeps_registry [of live_example 2 False 8]
  by (auto simp: live_example_def lock_table_covers_def)

theorem registry_cleared_counterexample:
  "init 2 True 7 initial = Inr live_example \<and> crypto_refs live_example = 1 \<and>
   shutdown live_example = Inr drained_example \<and> crypto_refs drained_example = 0 \<and>
   tids drained_example = [7] \<and> tids drained_example \<noteq> []"
proof -
  have "crypto_refs live_example = 1" and "crypto_refs drained_example = 0"
    and "tids drained_example = [7]"
    by (simp_all add: live_example_def drained_example_def)
  then show ?thesis
    by (simp only: init_live_example shutdown_live_example) simp
qed

text \<open>
  C5. Let \<open>CRYPTO_num_locks()\<close> report a count that is not negative. The call of
  \<open>init\<close> that takes \<open>crypto_refs\<close> from 0 to 1 and completes the one-time setup
  leaves \<open>ssl_num_locks\<close> equal to that count. When the count is positive,
  \<open>ssl_mutexes\<close> is an array of exactly that many mutexes, each initialised as
  \<open>PTHREAD_MUTEX_RECURSIVE\<close> and free, and any thread can take any slot twice through
  \<open>ssl_locking_callback\<close>, holding it twice afterwards. When the count is zero there
  is no slot and \<open>ssl_mutexes\<close> is not assigned.
\<close>

theorem first_init_lock_table:
  assumes "crypto_refs s = 0" and "0 \<le> nl" and "0 < nl \<longrightarrow> ok"
  shows "\<exists>s'. init nl ok t s = Inr s' \<and>
           int (ssl_num_locks s') = nl \<and>
           (0 < nl \<longrightarrow> ssl_mutexes s' =
              Some (replicate (nat nl) (Mutex PTHREAD_MUTEX_RECURSIVE None))) \<and>
           (nl = 0 \<longrightarrow> ssl_mutexes s' = ssl_mutexes s) \<and>
           (\<forall>u mode k. mode AND 1 \<noteq> 0 \<and> 0 \<le> k \<and> k < nl \<longrightarrow>
              (\<exists>s1 s2. ssl_locking_callback u mode k s' = Inr s1 \<and>
                 ssl_locking_callback u mode k s1 = Inr s2 \<and>
                 ssl_mutexes s2 = Some ((replicate (nat nl) (Mutex PTHREAD_MUTEX_RECURSIVE None))
                    [nat k := Mutex PTHREAD_MUTEX_RECURSIVE (Some (u, 2))])))"
  using assms
  by (simp add: init_first ssl_locking_callback_def numeral_2_eq_2)

theorem first_init_lock_table_witness:
  "\<exists>s'. init 2 True 7 initial = Inr s' \<and> ssl_num_locks s' = 2 \<and>
      ssl_mutexes s' = Some [Mutex PTHREAD_MUTEX_RECURSIVE None, Mutex PTHREAD_MUTEX_RECURSIVE None] \<and>
      (\<exists>s1 s2. ssl_locking_callback 9 1 0 s' = Inr s1 \<and> ssl_locking_callback 9 1 0 s1 = Inr s2 \<and>
         ssl_mutexes s2 = Some [Mutex PTHREAD_MUTEX_RECURSIVE (Some (9, 2)),
                                Mutex PTHREAD_MUTEX_RECURSIVE None])"
proof -
  have h1: "crypto_refs initial = 0" and h2: "(0 :: int) \<le> 2" and h3: "(0 :: int) < 2 \<longrightarrow> True"
    by (simp_all add: initial_def)
  obtain s' where s': "init 2 True 7 initial = Inr s'" "int (ssl_num_locks s') = 2"
      "(0 :: int) < 2 \<longrightarrow> ssl_mutexes s' = Some (replicate (nat 2) (Mutex PTHREAD_MUTEX_RECURSIVE None))"
      "\<forall>u mode k. mode AND 1 \<noteq> 0 \<and> 0 \<le> k \<and> k < 2 \<longrightarrow>
              (\<exists>s1 s2. ssl_locking_callback u mode k s' = Inr s1 \<and>
                 ssl_locking_callback u mode k s1 = Inr s2 \<and>
                 ssl_mutexes s2 = Some ((replicate (nat 2) (Mutex PTHREAD_MUTEX_RECURSIVE None))
                    [nat k := Mutex PTHREAD_MUTEX_RECURSIVE (Some (u, 2))]))"
    using first_init_lock_table [OF h1 h2 h3, of 7] by blast
  have "(1 :: int) AND 1 \<noteq> 0 \<and> (0 :: int) \<le> 0 \<and> (0 :: int) < 2"
    by simp
  then have "\<exists>s1 s2. ssl_locking_callback 9 1 0 s' = Inr s1 \<and>
                 ssl_locking_callback 9 1 0 s1 = Inr s2 \<and>
                 ssl_mutexes s2 = Some ((replicate (nat 2) (Mutex PTHREAD_MUTEX_RECURSIVE None))
                    [nat 0 := Mutex PTHREAD_MUTEX_RECURSIVE (Some (9, 2))])"
    using s'(4) by blast
  moreover have "ssl_num_locks s' = 2"
    using s'(2) by simp
  ultimately show ?thesis
    using s'(1,3) by (simp add: eval_nat_numeral)
qed

text \<open>
  C6. The call of \<open>shutdown\<close> that takes \<open>crypto_refs\<close> from 1 to 0, on a lock
  table as \<open>init\<close> left it, makes these calls in this order: under
  \<open>init_records.lock\<close>, \<open>ERR_remove_thread_state\<close> for every recorded thread
  identity; the removal of the locking callback and of the thread-id callback; the
  cleanup calls of the library; \<open>pthread_mutex_destroy\<close> for every slot of the
  table; \<open>delete[]\<close>. It leaves \<open>ssl_mutexes\<close> null and no callback installed,
  and a later \<open>init\<close> performs the whole setup again.
\<close>

theorem shutdown_order:
  assumes "crypto_refs s = 1" and "lock_table_covers s"
  shows "\<exists>s'. shutdown s = Inr s' \<and>
           trace s' = trace s
             @ [lock_init_records] @ map ERR_remove_thread_state (tids s) @ [unlock_init_records]
             @ [CRYPTO_set_locking_callback False, CRYPTO_set_id_callback False]
             @ [ENGINE_cleanup, CONF_modules_free, CONF_modules_unload, ERR_free_strings,
                EVP_cleanup, CRYPTO_cleanup_all_ex_data]
             @ map pthread_mutex_destroy_at [0..<ssl_num_locks s]
             @ [delete_mutexes] \<and>
           crypto_refs s' = 0 \<and> ssl_mutexes s' = None \<and>
           \<not> locking_callback s' \<and> \<not> id_callback s' \<and>
           (\<exists>s''. init nl True t s' = Inr s'' \<and>
              trace s'' = trace s' @ setup_calls nl @ record_calls t \<and>
              ssl_num_locks s'' = nat (max nl 0) \<and>
              ssl_mutexes s'' = (if 0 < nl
                 then Some (replicate (nat nl) (Mutex PTHREAD_MUTEX_RECURSIVE None)) else None))"
  using assms
  by (simp add: shutdown_last init_first shutdown_calls_def teardown_calls_def library_cleanup_def)

theorem shutdown_order_witness:
  "\<exists>s'. shutdown live_example = Inr s' \<and>
      trace s' = trace live_example @
        [lock_init_records, ERR_remove_thread_state 7, unlock_init_records,
         CRYPTO_set_locking_callback False, CRYPTO_set_id_callback False,
         ENGINE_cleanup, CONF_modules_free, CONF_modules_unload, ERR_free_strings,
         EVP_cleanup, CRYPTO_cleanup_all_ex_data,
         pthread_mutex_destroy_at 0, pthread_mutex_destroy_at 1, delete_mutexes] \<and>
      ssl_mutexes s' = None"
proof -
  have h1: "crypto_refs live_example = 1" and h2: "lock_table_covers live_example"
    by (simp_all add: live_example_def lock_table_covers_def)
  show ?thesis
    using shutdown_order [OF h1 h2, of 2 7]
    by (auto simp: live_example_def eval_nat_numeral)
qed


section \<open>Properties of the digest wrapper\<close>

lemma load_length: "load mem p n = Some bs \<Longrightarrow> length bs = n"
  by (induction n arbitrary: p bs) (auto split: option.splits)

lemma Update_loaded:
  assumes "load mem p (unat n) = Some bs"
  shows "Update lib mem d p n = Inr (absorb lib d bs)"
proof (cases "n = 0")
  case True
  with assms show ?thesis
    by (simp add: Update_def absorb_def)
next
  case False
  then have "unat n \<noteq> 0"
    by (simp add: unat_eq_0)
  then have "bs \<noteq> []"
    using load_length [OF assms] by auto
  with False assms show ?thesis
    by (simp add: Update_def absorb_def)
qed

lemma Updates_loaded:
  assumes "list_all2 (\<lambda>(q, m) c. load mem q (unat m) = Some c) chunks cs"
  shows "Updates lib mem d chunks = Inr (fold (\<lambda>c d. absorb lib d c) cs d)"
  using assms
proof (induction chunks cs arbitrary: d rule: list_all2_induct)
  case Nil
  then show ?case by simp
next
  case (Cons x chunks c cs)
  obtain q m where x: "x = (q, m)"
    by (cases x)
  with Cons.hyps have "load mem q (unat m) = Some c"
    by simp
  then have "Update lib mem d q m = Inr (absorb lib d c)"
    by (rule Update_loaded)
  then show ?case
    using Cons.IH by (simp add: x)
qed

lemma Update_invalid_pointer:
  assumes "len \<noteq> 0" and "mem input = None"
  shows "Update lib mem d input len = Inl InvalidAccess"
proof -
  from assms(1) have "unat len \<noteq> 0"
    by (simp add: unat_eq_0)
  then obtain k where "unat len = Suc k"
    by (cases "unat len") auto
  with assms show ?thesis
    by (simp add: Update_def)
qed

lemma store_outside:
  "store mem p bs = Some mem' \<Longrightarrow> a < p \<or> p + length bs \<le> a \<Longrightarrow> mem' a = mem a"
proof (induction bs arbitrary: mem p)
  case Nil
  then show ?case by simp
next
  case (Cons b bs)
  from Cons.prems(1) have "store (mem(p \<mapsto> b)) (Suc p) bs = Some mem'"
    by (simp split: option.splits)
  moreover have "a < Suc p \<or> Suc p + length bs \<le> a"
    using Cons.prems(2) by auto
  ultimately have "mem' a = (mem(p \<mapsto> b)) a"
    by (rule Cons.IH)
  moreover have "a \<noteq> p"
    using Cons.prems(2) by auto
  ultimately show ?case
    by simp
qed

lemma store_load:
  "store mem p bs = Some mem' \<Longrightarrow> load mem' p (length bs) = Some bs"
proof (induction bs arbitrary: mem p)
  case Nil
  then show ?case by simp
next
  case (Cons b bs)
  from Cons.prems have rest: "store (mem(p \<mapsto> b)) (Suc p) bs = Some mem'"
    by (simp split: option.splits)
  then have "mem' p = (mem(p \<mapsto> b)) p"
    by (rule store_outside) simp
  then have "mem' p = Some b"
    by simp
  moreover have "load mem' (Suc p) (length bs) = Some bs"
    using rest by (rule Cons.IH)
  ultimately show ?case
    by simp
qed

lemma store_succeeds:
  "\<forall>a. p \<le> a \<and> a < p + length bs \<longrightarrow> mem a \<noteq> None \<Longrightarrow> \<exists>mem'. store mem p bs = Some mem'"
proof (induction bs arbitrary: mem p)
  case Nil
  then show ?case by simp
next
  case (Cons b bs)
  from Cons.prems obtain old where old: "mem p = Some old"
    by fastforce
  have "\<forall>a. Suc p \<le> a \<and> a < Suc p + length bs \<longrightarrow> (mem(p \<mapsto> b)) a \<noteq> None"
    using Cons.prems by auto
  then have "\<exists>mem'. store (mem(p \<mapsto> b)) (Suc p) bs = Some mem'"
    by (rule Cons.IH)
  then show ?case
    by (simp add: old)
qed

lemma absorb_running:
  assumes "mpContext d = Running md msg"
  shows "absorb (evp H) d bs = d\<lparr>mpContext := Running md (msg @ bs)\<rparr>"
  using assms by (cases "bs = []") (simp_all add: absorb_def evp_def)

lemma absorb_all_running:
  assumes "mpContext d = Running md msg"
  shows "fold (\<lambda>c d. absorb (evp H) d c) cs d = d\<lparr>mpContext := Running md (msg @ concat cs)\<rparr>"
  using assms
proof (induction cs arbitrary: d msg)
  case Nil
  then show ?case by simp
next
  case (Cons c cs)
  have "mpContext (absorb (evp H) d c) = Running md (msg @ c)"
    by (simp add: absorb_running [OF Cons.prems])
  then have "fold (\<lambda>c d. absorb (evp H) d c) cs (absorb (evp H) d c) =
      (absorb (evp H) d c)\<lparr>mpContext := Running md ((msg @ c) @ concat cs)\<rparr>"
    by (rule Cons.IH)
  then show ?case
    by (simp add: absorb_running [OF Cons.prems])
qed

lemma Final_running:
  assumes "mpContext d = Running md msg"
    and "\<forall>a. out \<le> a \<and> a < out + length (H md msg) \<longrightarrow> mem a \<noteq> None"
  shows "\<exists>mem'. store mem out (H md msg) = Some mem' \<and>
           Final (evp H) mem d out = Inr (mem', d\<lparr>mpContext := Finished md\<rparr>) \<and>
           load mem' out (length (H md msg)) = Some (H md msg)"
proof -
  obtain mem' where st: "store mem out (H md msg) = Some mem'"
    using store_succeeds [OF assms(2)] by blast
  have "Final (evp H) mem d out = Inr (mem', d\<lparr>mpContext := Finished md\<rparr>)"
    by (simp add: Final_def evp_def assms(1) st)
  moreover have "load mem' out (length (H md msg)) = Some (H md msg)"
    using st by (rule store_load)
  ultimately show ?thesis
    using st by simp
qed

text \<open>
  C9. Take the EVP functions as the spec describes them, for any hash function \<open>H\<close>.
  Two digest objects of the same algorithm, in whatever state earlier use has left their
  contexts, are each restarted, updated and finalised into the same writable buffer: the
  first by one call of \<open>Update\<close> with the bytes \<open>s\<close>, the second by successive calls of
  \<open>Update\<close> with chunks whose concatenation is \<open>s\<close> (empty chunks included, wherever
  they point). Both sequences return, both leave the same memory, and the buffer holds
  the digest \<open>H\<close> of \<open>s\<close>.
\<close>

theorem chunked_update_same_digest:
  assumes "mpType d1 = mpType d2"
    and "load mem p (unat n) = Some s"
    and "list_all2 (\<lambda>(q, m) c. load mem q (unat m) = Some c) chunks cs"
    and "concat cs = s"
    and "\<forall>a. out \<le> a \<and> a < out + length (H (mpType d1) s) \<longrightarrow> mem a \<noteq> None"
  shows "\<exists>mem'. digest_of (evp H) mem d1 [(p, n)] out
                  = Inr (mem', d1\<lparr>mpContext := Finished (mpType d1)\<rparr>) \<and>
               digest_of (evp H) mem d2 chunks out
                  = Inr (mem', d2\<lparr>mpContext := Finished (mpType d2)\<rparr>) \<and>
               load mem' out (length (H (mpType d1) s)) = Some (H (mpType d1) s)"
proof -
  let ?md = "mpType d1"
  have r1: "mpContext (Restart (evp H) d1) = Running ?md []"
    and r2: "mpContext (Restart (evp H) d2) = Running ?md []"
    using assms(1) by (simp_all add: Restart_def evp_def)
  have one: "Update (evp H) mem (Restart (evp H) d1) p n =
      Inr ((Restart (evp H) d1)\<lparr>mpContext := Running ?md s\<rparr>)"
    using Update_loaded [OF assms(2), of "evp H" "Restart (evp H) d1"]
    by (simp add: absorb_running [OF r1])
  have many: "Updates (evp H) mem (Restart (evp H) d2) chunks =
      Inr ((Restart (evp H) d2)\<lparr>mpContext := Running ?md s\<rparr>)"
    using Updates_loaded [OF assms(3), of "evp H" "Restart (evp H) d2"]
    by (simp add: absorb_all_running [OF r2] assms(4))
  have c1: "mpContext ((Restart (evp H) d1)\<lparr>mpContext := Running ?md s\<rparr>) = Running ?md s"
    and c2: "mpContext ((Restart (evp H) d2)\<lparr>mpContext := Running ?md s\<rparr>) = Running ?md s"
    by simp_all
  obtain m1 where s1: "store mem out (H ?md s) = Some m1"
    and f1: "Final (evp H) mem ((Restart (evp H) d1)\<lparr>mpContext := Running ?md s\<rparr>) out =
       Inr (m1, (Restart (evp H) d1)\<lparr>mpContext := Running ?md s, mpContext := Finished ?md\<rparr>)"
    and l1: "load m1 out (length (H ?md s)) = Some (H ?md s)"
    using Final_running [where H = H, OF c1 assms(5)] by auto
  obtain m2 where s2: "store mem out (H ?md s) = Some m2"
    and f2: "Final (evp H) mem ((Restart (evp H) d2)\<lparr>mpContext := Running ?md s\<rparr>) out =
       Inr (m2, (Restart (evp H) d2)\<lparr>mpContext := Running ?md s, mpContext := Finished ?md\<rparr>)"
    using Final_running [where H = H, OF c2 assms(5)] by auto
  have same: "m2 = m1"
    using s1 s2 by simp
  have "digest_of (evp H) mem d1 [(p, n)] out = Inr (m1, d1\<lparr>mpContext := Finished ?md\<rparr>)"
    using one f1 by (simp add: digest_of_def Restart_def)
  moreover have "digest_of (evp H) mem d2 chunks out
      = Inr (m1, d2\<lparr>mpContext := Finished (mpType d2)\<rparr>)"
    using many f2 same assms(1) by (simp add: digest_of_def Restart_def)
  ultimately show ?thesis
    using l1 by blast
qed

theorem chunked_update_same_digest_witness:
  "\<exists>mem'. digest_of (evp checksum) example_memory (new_OpenSSLDigest (evp checksum) ()) [(1, 3)] 32
       = Inr (mem', \<lparr>mpContext = Finished (), mpType = ()\<rparr>) \<and>
     digest_of (evp checksum) example_memory \<lparr>mpContext = Running () [1, 2], mpType = ()\<rparr>
         [(1, 1), (0, 0), (2, 2)] 32
       = Inr (mem', \<lparr>mpContext = Finished (), mpType = ()\<rparr>) \<and>
     load mem' 32 2 = Some [3, 33]"
proof -
  let ?d1 = "new_OpenSSLDigest (evp checksum) ()"
  let ?d2 = "\<lparr>mpContext = Running () [1, 2 :: byte], mpType = ()\<rparr>"
  have l3: "load example_memory 1 3 = Some [10, 11, 12]"
    and l1: "load example_memory 1 1 = Some [10]"
    and l2: "load example_memory 2 2 = Some [11, 12]"
    by code_simp+
  have h1: "mpType ?d1 = mpType ?d2"
    by simp
  have h2: "load example_memory 1 (unat (3 :: 64 word)) = Some [10, 11, 12]"
    using l3 by simp
  have h3: "list_all2 (\<lambda>(q, m) c. load example_memory q (unat m) = Some c)
      [(1, 1 :: 64 word), (0, 0), (2, 2)] [[10], [], [11, 12]]"
    using l1 l2 by simp
  have h4: "concat [[10], [], [11, 12]] = [10, 11, 12 :: byte]"
    by simp
  have digest: "checksum () [10, 11, 12] = [3, 33]"
    by (simp add: checksum_def)
  have h5: "\<forall>a. 32 \<le> a \<and> a < 32 + length (checksum (mpType ?d1) [10, 11, 12]) \<longrightarrow>
      example_memory a \<noteq> None"
    by (simp add: example_memory_def digest)
  have t1: "mpType ?d1 = ()" and t2: "?d1\<lparr>mpContext := Finished ()\<rparr> = \<lparr>mpContext = Finished (), mpType = ()\<rparr>"
    by (simp_all add: new_OpenSSLDigest_def Restart_def)
  have len: "length [3, 33 :: byte] = 2"
    by simp
  from chunked_update_same_digest [where H = checksum and out = 32, OF h1 h2 h3 h4 h5]
  show ?thesis
    unfolding t1 t2 digest len by simp
qed

text \<open>
  C4. \<open>Update\<close> with length zero returns the object as it is, whatever the pointer
  and whatever the memory: nothing is read through the pointer, so no pointer can make
  the call fail, and no EVP function is applied to \<open>mpContext\<close>, so the result does
  not depend on the backend.
\<close>

theorem Update_zero_length_noop:
  "Update lib mem d input 0 = Inr d"
  by (simp add: Update_def)

text \<open>
  C3. \<open>Final\<close> makes no check of the size: the value \<open>EVP_DigestFinal_ex\<close> stores
  in \<open>s\<close> is dropped, and \<open>Final\<close> never ends in a failed assertion. Into a
  writable buffer it writes exactly the bytes the backend produces, and leaves every
  other byte of memory as it was; hence it writes exactly the digest length of the
  algorithm whenever the output of the backend has that length.
\<close>

theorem Final_writes_backend_output:
  assumes "EVP_DigestFinal_ex lib (mpContext d) = (md, s, ctx')"
    and "\<forall>a. digest \<le> a \<and> a < digest + length md \<longrightarrow> mem a \<noteq> None"
  shows "Final lib mem' d' digest' \<noteq> Inl AssertionFailed \<and>
         (\<exists>mem1. Final lib mem d digest = Inr (mem1, d\<lparr>mpContext := ctx'\<rparr>) \<and>
            load mem1 digest (length md) = Some md \<and>
            (\<forall>a. a < digest \<or> digest + length md \<le> a \<longrightarrow> mem1 a = mem a) \<and>
            (length md = EVP_MD_size lib (mpType d) \<longrightarrow>
               load mem1 digest (EVP_MD_size lib (mpType d)) = Some md))"
proof
  show "Final lib mem' d' digest' \<noteq> Inl AssertionFailed"
    by (simp add: Final_def split: prod.splits option.splits)
next
  obtain mem1 where st: "store mem digest md = Some mem1"
    using store_succeeds [OF assms(2)] by blast
  have "Final lib mem d digest = Inr (mem1, d\<lparr>mpContext := ctx'\<rparr>)"
    by (simp add: Final_def assms(1) st)
  moreover have "load mem1 digest (length md) = Some md"
    using st by (rule store_load)
  moreover have "\<forall>a. a < digest \<or> digest + length md \<le> a \<longrightarrow> mem1 a = mem a"
    using store_outside [OF st] by blast
  ultimately show "\<exists>mem1. Final lib mem d digest = Inr (mem1, d\<lparr>mpContext := ctx'\<rparr>) \<and>
            load mem1 digest (length md) = Some md \<and>
            (\<forall>a. a < digest \<or> digest + length md \<le> a \<longrightarrow> mem1 a = mem a) \<and>
            (length md = EVP_MD_size lib (mpType d) \<longrightarrow>
               load mem1 digest (EVP_MD_size lib (mpType d)) = Some md)"
    by auto
qed

theorem Final_writes_backend_output_witness:
  "\<exists>mem1. Final checksum_lib example_memory \<lparr>mpContext = [10, 11, 12], mpType = ()\<rparr> 32
       = Inr (mem1, \<lparr>mpContext = [10, 11, 12], mpType = ()\<rparr>) \<and>
     load mem1 32 2 = Some [3, 33] \<and> mem1 34 = Some 0 \<and> mem1 3 = Some 12"
proof -
  let ?d = "\<lparr>mpContext = [10, 11, 12 :: byte], mpType = ()\<rparr>"
  have h1: "EVP_DigestFinal_ex checksum_lib (mpContext ?d) = ([3, 33], 2, [10, 11, 12])"
    by (simp add: checksum_lib_def)
  have h2: "\<forall>a. 32 \<le> a \<and> a < 32 + length [3, 33 :: byte] \<longrightarrow> example_memory a \<noteq> None"
    by (simp add: example_memory_def)
  from Final_writes_backend_output [OF h1 h2, where mem' = example_memory and d' = ?d
      and digest' = 32]
  obtain mem1 where
    final: "Final checksum_lib example_memory ?d 32 = Inr (mem1, ?d\<lparr>mpContext := [10, 11, 12]\<rparr>)"
    and loaded: "load mem1 32 (length [3, 33 :: byte]) = Some [3, 33]"
    and outside: "\<forall>a. a < 32 \<or> 32 + length [3, 33 :: byte] \<le> a \<longrightarrow> mem1 a = example_memory a"
    by blast
  have "mem1 34 = example_memory 34" and "mem1 3 = example_memory 3"
    using outside by simp_all
  then have "mem1 34 = Some 0" and "mem1 3 = Some 12"
    by (simp_all add: example_memory_def)
  moreover have len: "length [3, 33 :: byte] = 2"
    by simp
  have "load mem1 32 2 = Some [3, 33]"
    using loaded unfolding len .
  ultimately show ?thesis
    using final by simp
qed

theorem Final_size_counterexample:
  "EVP_MD_size short_lib (mpType (new_OpenSSLDigest short_lib ())) = 16 \<and>
   Final short_lib example_memory (new_OpenSSLDigest short_lib ()) 32
     = Inr (example_memory(32 \<mapsto> 0xAA, 33 \<mapsto> 0xBB, 34 \<mapsto> 0xCC),
            new_OpenSSLDigest short_lib ()) \<and>
   (example_memory(32 \<mapsto> 0xAA, 33 \<mapsto> 0xBB, 34 \<mapsto> 0xCC)) 35 = example_memory 35"
  by (simp add: Final_def short_lib_def new_OpenSSLDigest_def Restart_def example_memory_def
      eval_nat_numeral)


end
